theory Spec2Isabelle
  imports Main "HOL-Library.AList"
begin

section \<open>The connected-client registry of \<open>message-ws.service.ts\<close>\<close>

subsection \<open>Data model\<close>

text \<open>
  The service uses three fields of the \<open>User\<close> entity: \<open>id\<close>, \<open>isActive\<close> and
  \<open>fullName\<close>. (\<open>id\<close> is the identity function of HOL, hence \<open>user_id\<close>.)
\<close>

record User =
  user_id :: string
  isActive :: bool
  fullName :: string

text \<open>
  A socket.io \<open>Socket\<close>: the service reads its \<open>id\<close> and calls \<open>disconnect()\<close> on it.
  \<open>handle\<close> stands for the identity of the object, so that two sockets carrying the same
  \<open>id\<close> remain different values.
\<close>

record Socket =
  socket_id :: string
  handle :: nat

text \<open>The value type of the \<open>ConnectedClients\<close> interface.\<close>

record ClientEntry =
  socket :: Socket
  user :: User

text \<open>
  \<open>ConnectedClients\<close> is a JavaScript object used as a dictionary from socket ids to
  entries. It is modelled by its own properties in creation order: assigning to a new key
  appends, assigning to an existing key replaces the value in place
  (\<^const>\<open>AList.update\<close>), \<open>delete\<close> drops the key (\<^const>\<open>AList.delete\<close>), and a
  read is \<^const>\<open>map_of\<close>, with \<open>None\<close> for \<open>undefined\<close>. The keys are the
  session ids that socket.io generates; the property name \<open>__proto__\<close>, which an
  assignment treats specially, is not among them.
\<close>

type_synonym ConnectedClients = "(string \<times> ClientEntry) list"

text \<open>
  What the service throws: \<open>new Error(message)\<close>, and the \<open>TypeError\<close> of the runtime
  when a property is read from \<open>undefined\<close>. A rejection of the repository's promise is
  passed on unchanged, whatever value it carries.
\<close>

datatype exn = Error string | TypeError

abbreviation UserNotFound :: exn where
  "UserNotFound \<equiv> Error ''User not found''"

abbreviation UserInactive :: exn where
  "UserInactive \<equiv> Error ''User is not active''"

abbreviation SessionNotFound :: exn where
  "SessionNotFound \<equiv> TypeError"

text \<open>
  The state a call can change: the private field \<open>connectedClients\<close>, and the calls of
  \<open>socket.disconnect()\<close> made so far, oldest first. \<open>disconnect()\<close> is a call into
  socket.io that returns nothing to the service; the model records it and leaves the
  registry as it is. The disconnect notification that the transport sends afterwards is a
  later call of \<open>removeClient\<close>.
\<close>

record world =
  connectedClients :: ConnectedClients
  disconnect_calls :: "Socket list"

definition init_world :: world where
  "init_world = \<lparr>connectedClients = [], disconnect_calls = []\<rparr>"

subsection \<open>\<open>Object.keys\<close>\<close>

text \<open>
  \<open>Object.keys\<close> lists the keys that are array indices (canonical decimal numerals below
  \<open>2^32 - 1\<close>) first, in ascending numeric order, and then the other string keys in
  creation order.
\<close>

definition is_digit :: "char \<Rightarrow> bool" where
  "is_digit c \<longleftrightarrow> 48 \<le> (of_char c :: nat) \<and> (of_char c :: nat) \<le> 57"

definition index_value :: "string \<Rightarrow> nat" where
  "index_value s = foldl (\<lambda>n c. 10 * n + ((of_char c :: nat) - 48)) 0 s"

definition is_array_index :: "string \<Rightarrow> bool" where
  "is_array_index s \<longleftrightarrow>
     s \<noteq> [] \<and> list_all is_digit s \<and> (length s = 1 \<or> hd s \<noteq> CHR ''0'')
     \<and> index_value s < 2 ^ 32 - 1"

definition Object_keys :: "(string \<times> 'v) list \<Rightarrow> string list" where
  "Object_keys obj =
     sort_key index_value (filter is_array_index (map fst obj))
     @ filter (\<lambda>k. \<not> is_array_index k) (map fst obj)"

subsection \<open>The operations of \<open>MessageWsService\<close>\<close>

text \<open>
  The loop of \<open>checkUserConnection\<close> over the keys that \<open>Object.keys\<close> returned: the
  entry of each key is read from the object, the first one whose \<open>user.id\<close> is the given
  user's has its socket disconnected, and the loop breaks there.
\<close>

fun checkUserConnection_loop :: "User \<Rightarrow> string list \<Rightarrow> world \<Rightarrow> (exn + unit) \<times> world" where
  "checkUserConnection_loop u [] w = (Inr (), w)"
| "checkUserConnection_loop u (clientId # rest) w =
     (case map_of (connectedClients w) clientId of
        None \<Rightarrow> (Inl TypeError, w)
      | Some entry \<Rightarrow>
          if user_id (user entry) = user_id u
          then (Inr (), w\<lparr>disconnect_calls := disconnect_calls w @ [socket entry]\<rparr>)
          else checkUserConnection_loop u rest w)"

definition checkUserConnection :: "User \<Rightarrow> world \<Rightarrow> (exn + unit) \<times> world" where
  "checkUserConnection u w =
     checkUserConnection_loop u (Object_keys (connectedClients w)) w"

text \<open>
  \<open>registerClient\<close>. The repository is the parameter \<open>findOneBy\<close>: its answer for a user
  id is a rejection, \<open>null\<close> or a user. Everything after the \<open>await\<close> runs without
  interruption, so a call is one step on the state.
\<close>

definition registerClient ::
  "(string \<Rightarrow> exn + User option) \<Rightarrow> Socket \<Rightarrow> string \<Rightarrow> world \<Rightarrow> (exn + unit) \<times> world" where
  "registerClient findOneBy client userId w =
     (case findOneBy userId of
        Inl e \<Rightarrow> (Inl e, w)
      | Inr None \<Rightarrow> (Inl (Error ''User not found''), w)
      | Inr (Some u) \<Rightarrow>
          if \<not> isActive u then (Inl (Error ''User is not active''), w)
          else (case checkUserConnection u w of
                  (Inl e, w') \<Rightarrow> (Inl e, w')
                | (Inr _, w') \<Rightarrow>
                    (Inr (),
                     w'\<lparr>connectedClients :=
                          AList.update (socket_id client) \<lparr>socket = client, user = u\<rparr>
                            (connectedClients w')\<rparr>)))"

definition removeClient :: "string \<Rightarrow> world \<Rightarrow> world" where
  "removeClient clientId w =
     w\<lparr>connectedClients := AList.delete clientId (connectedClients w)\<rparr>"

definition getConnectedClients :: "world \<Rightarrow> string list" where
  "getConnectedClients w = Object_keys (connectedClients w)"

definition getUserFullName :: "string \<Rightarrow> world \<Rightarrow> exn + string" where
  "getUserFullName clientId w =
     (case map_of (connectedClients w) clientId of
        None \<Rightarrow> Inl TypeError
      | Some entry \<Rightarrow> Inr (fullName (user entry)))"

subsection \<open>Sequences of calls\<close>

text \<open>
  A call of \<open>registerClient\<close> carries the repository as it answers at that moment, so a
  sequence of calls also describes a directory that changes between them. A call that
  throws leaves the state it had reached.
\<close>

datatype call =
  Register "string \<Rightarrow> exn + User option" Socket string
  | Unregister string

fun call_step :: "call \<Rightarrow> world \<Rightarrow> world" where
  "call_step (Register findOneBy client userId) w = snd (registerClient findOneBy client userId w)"
| "call_step (Unregister clientId) w = removeClient clientId w"

definition run :: "call list \<Rightarrow> world \<Rightarrow> world" where
  "run calls w = fold call_step calls w"

subsection \<open>Predicates on the registry\<close>

text \<open>The test of the loop, \<open>connectedClients.user.id === user.id\<close>, at a key of the registry.\<close>

definition same_user :: "User \<Rightarrow> ConnectedClients \<Rightarrow> string \<Rightarrow> bool" where
  "same_user u cc k \<longleftrightarrow>
     (case map_of cc k of None \<Rightarrow> False | Some entry \<Rightarrow> user_id (user entry) = user_id u)"






text \<open>Whether a call writes or deletes the key \<open>k\<close> of the registry.\<close>

fun touches :: "string \<Rightarrow> call \<Rightarrow> bool" where
  "touches k (Register findOneBy client userId) \<longleftrightarrow> socket_id client = k"
| "touches k (Unregister clientId) \<longleftrightarrow> clientId = k"

subsection \<open>Example data\<close>

definition ada :: User where
  "ada = \<lparr>user_id = ''u1'', isActive = True, fullName = ''Ada Lovelace''\<rparr>"

definition grace :: User where
  "grace = \<lparr>user_id = ''u2'', isActive = False, fullName = ''Grace Hopper''\<rparr>"

definition directory :: "string \<Rightarrow> exn + User option" where
  "directory i = (if i = ''u1'' then Inr (Some ada) else Inr None)"

text \<open>The directory at a later time: \<open>u1\<close> has been renamed, and an inactive \<open>u2\<close> exists.\<close>

definition directory_later :: "string \<Rightarrow> exn + User option" where
  "directory_later i =
     (if i = ''u1'' then Inr (Some (ada\<lparr>fullName := ''Ada King''\<rparr>))
      else if i = ''u2'' then Inr (Some grace)
      else Inr None)"

definition connA :: Socket where
  "connA = \<lparr>socket_id = ''sessA'', handle = 1\<rparr>"

definition connB :: Socket where
  "connB = \<lparr>socket_id = ''sessB'', handle = 2\<rparr>"

text \<open>A second connection that presents the session id of \<open>connA\<close>.\<close>

definition connA2 :: Socket where
  "connA2 = \<lparr>socket_id = ''sessA'', handle = 3\<rparr>"

definition entryA :: ClientEntry where
  "entryA = \<lparr>socket = connA, user = ada\<rparr>"

text \<open>The state after \<open>connA\<close> has registered for \<open>u1\<close> on the empty registry.\<close>

definition world_A :: world where
  "world_A = \<lparr>connectedClients = [(''sessA'', entryA)], disconnect_calls = []\<rparr>"

lemmas eval_defs =
  run_def registerClient_def checkUserConnection_def Object_keys_def is_array_index_def
  is_digit_def index_value_def removeClient_def getConnectedClients_def getUserFullName_def
  init_world_def ada_def grace_def directory_def directory_later_def connA_def connB_def
  connA2_def entryA_def world_A_def same_user_def

section \<open>\<open>Object.keys\<close> and the loop of \<open>checkUserConnection\<close>\<close>

lemma Object_keys_example:
  "Object_keys [(''b'', ()), (''10'', ()), (''a'', ()), (''9'', ()), (''07'', ())]
     = [''9'', ''10'', ''b'', ''a'', ''07'']"
  by (simp add: eval_defs)

lemma set_Object_keys: "set (Object_keys obj) = fst ` set obj"
  by (auto simp: Object_keys_def)

lemma key_has_entry: "k \<in> fst ` set cc \<Longrightarrow> \<exists>e. map_of cc k = Some e"
  by (cases "map_of cc k") (auto simp: map_of_eq_None_iff)

lemma entry_has_key: "map_of cc k = Some e \<Longrightarrow> k \<in> fst ` set cc"
  by (auto dest: map_of_SomeD intro: rev_image_eqI)

text \<open>Keys whose entries belong to other users are passed over.\<close>

lemma loop_skip:
  "\<forall>k\<in>set ys. k \<in> fst ` set (connectedClients w) \<and> \<not> same_user u (connectedClients w) k \<Longrightarrow>
   checkUserConnection_loop u (ys @ rest) w = checkUserConnection_loop u rest w"
proof (induction ys)
  case Nil
  show ?case by simp
next
  case (Cons y ys)
  then obtain e where "map_of (connectedClients w) y = Some e"
    using key_has_entry[of y "connectedClients w"] by auto
  with Cons show ?case by (simp add: same_user_def)
qed

lemma loop_hit:
  "map_of (connectedClients w) k = Some e \<Longrightarrow> user_id (user e) = user_id u \<Longrightarrow>
   checkUserConnection_loop u (k # rest) w
     = (Inr (), w\<lparr>disconnect_calls := disconnect_calls w @ [socket e]\<rparr>)"
  by simp

text \<open>
  With an entry of the user in the registry, the call disconnects the socket of the first
  such entry in the order of \<open>Object.keys\<close>, and nothing else.
\<close>

lemma checkUserConnection_first_match:
  assumes "same_user u (connectedClients w) k"
  shows "\<exists>ks1 k0 ks2 e0.
           Object_keys (connectedClients w) = ks1 @ k0 # ks2
         \<and> (\<forall>k'\<in>set ks1. \<not> same_user u (connectedClients w) k')
         \<and> map_of (connectedClients w) k0 = Some e0 \<and> user_id (user e0) = user_id u
         \<and> checkUserConnection u w
             = (Inr (), w\<lparr>disconnect_calls := disconnect_calls w @ [socket e0]\<rparr>)"
proof -
  let ?cc = "connectedClients w"
  from assms have "k \<in> set (Object_keys ?cc)"
    by (auto simp: same_user_def set_Object_keys entry_has_key split: option.splits)
  with assms have "\<exists>k\<in>set (Object_keys ?cc). same_user u ?cc k" by blast
  from split_list_first_prop[OF this] obtain ks1 k0 ks2 where
    split: "Object_keys ?cc = ks1 @ k0 # ks2" and hit: "same_user u ?cc k0"
    and miss: "\<forall>k'\<in>set ks1. \<not> same_user u ?cc k'"
    by blast
  from hit obtain e0 where e0: "map_of ?cc k0 = Some e0" "user_id (user e0) = user_id u"
    by (auto simp: same_user_def split: option.splits)
  from split have "set ks1 \<subseteq> fst ` set ?cc"
    using set_Object_keys[of ?cc] by auto
  with miss have "\<forall>k'\<in>set ks1. k' \<in> fst ` set ?cc \<and> \<not> same_user u ?cc k'" by blast
  then have "checkUserConnection_loop u (ks1 @ k0 # ks2) w
               = checkUserConnection_loop u (k0 # ks2) w"
    by (rule loop_skip)
  with split e0 have "checkUserConnection u w
        = (Inr (), w\<lparr>disconnect_calls := disconnect_calls w @ [socket e0]\<rparr>)"
    by (simp add: checkUserConnection_def)
  with split miss e0 show ?thesis by blast
qed

lemma checkUserConnection_no_match:
  assumes "\<forall>k. \<not> same_user u (connectedClients w) k"
  shows "checkUserConnection u w = (Inr (), w)"
proof -
  from assms have "\<forall>k\<in>set (Object_keys (connectedClients w)).
      k \<in> fst ` set (connectedClients w) \<and> \<not> same_user u (connectedClients w) k"
    by (simp add: set_Object_keys)
  from loop_skip[OF this, of "[]"] show ?thesis
    by (simp add: checkUserConnection_def)
qed

text \<open>
  The loop never reads a missing entry, so \<open>checkUserConnection\<close> does not throw: it
  disconnects no socket, or exactly one.
\<close>

lemma checkUserConnection_cases:
  "\<exists>ds. checkUserConnection u w = (Inr (), w\<lparr>disconnect_calls := disconnect_calls w @ ds\<rparr>)
      \<and> (ds = [] \<and> (\<forall>k. \<not> same_user u (connectedClients w) k)
          \<or> (\<exists>k0 e0. map_of (connectedClients w) k0 = Some e0
                \<and> user_id (user e0) = user_id u \<and> ds = [socket e0]))"
proof (cases "\<exists>k. same_user u (connectedClients w) k")
  case True
  then obtain k where "same_user u (connectedClients w) k" ..
  from checkUserConnection_first_match[OF this] show ?thesis by blast
next
  case False
  then have "checkUserConnection u w = (Inr (), w)"
    by (simp add: checkUserConnection_no_match)
  with False show ?thesis by (intro exI[of _ "[]"]) simp
qed

section \<open>The result of \<open>registerClient\<close>\<close>

lemma registerClient_success:
  assumes "findOneBy userId = Inr (Some u)" "isActive u"
  shows "\<exists>ds. registerClient findOneBy client userId w
           = (Inr (),
              \<lparr>connectedClients =
                 AList.update (socket_id client) \<lparr>socket = client, user = u\<rparr> (connectedClients w),
               disconnect_calls = disconnect_calls w @ ds\<rparr>)
      \<and> (ds = [] \<and> (\<forall>k. \<not> same_user u (connectedClients w) k)
          \<or> (\<exists>k0 e0. map_of (connectedClients w) k0 = Some e0
                \<and> user_id (user e0) = user_id u \<and> ds = [socket e0]))"
proof -
  from checkUserConnection_cases[of u w] obtain ds where
    ds: "checkUserConnection u w = (Inr (), w\<lparr>disconnect_calls := disconnect_calls w @ ds\<rparr>)"
    and cases: "ds = [] \<and> (\<forall>k. \<not> same_user u (connectedClients w) k)
          \<or> (\<exists>k0 e0. map_of (connectedClients w) k0 = Some e0
                \<and> user_id (user e0) = user_id u \<and> ds = [socket e0])"
    by blast
  from assms ds have "registerClient findOneBy client userId w
           = (Inr (),
              \<lparr>connectedClients =
                 AList.update (socket_id client) \<lparr>socket = client, user = u\<rparr> (connectedClients w),
               disconnect_calls = disconnect_calls w @ ds\<rparr>)"
    by (simp add: registerClient_def)
  with cases show ?thesis by blast
qed

lemma registerClient_outcome:
  "fst (registerClient findOneBy client userId w)
     = (case findOneBy userId of
          Inl e \<Rightarrow> Inl e
        | Inr None \<Rightarrow> Inl UserNotFound
        | Inr (Some u) \<Rightarrow> if isActive u then Inr () else Inl UserInactive)"
  using registerClient_success[of findOneBy userId _ client w]
  by (auto simp: registerClient_def split: sum.splits option.splits)

lemma registerClient_failure:
  "fst (registerClient findOneBy client userId w) = Inl e \<Longrightarrow>
   snd (registerClient findOneBy client userId w) = w"
  using registerClient_success[of findOneBy userId _ client w]
  by (auto simp: registerClient_def split: sum.splits option.splits if_splits)

text \<open>A successful call writes the key of the new socket and no other key.\<close>

lemma registerClient_other_keys:
  "k \<noteq> socket_id client \<Longrightarrow>
   map_of (connectedClients (snd (registerClient findOneBy client userId w))) k
     = map_of (connectedClients w) k"
proof (cases "fst (registerClient findOneBy client userId w)")
  case (Inl e)
  then show ?thesis by (simp add: registerClient_failure)
next
  case (Inr x)
  assume k: "k \<noteq> socket_id client"
  from Inr obtain u where "findOneBy userId = Inr (Some u)" "isActive u"
    by (auto simp: registerClient_outcome split: sum.splits option.splits if_splits)
  with registerClient_success[of findOneBy userId u client w] k
  show ?thesis by (auto simp: update_conv')
qed

section \<open>Failing registrations\<close>

text \<open>
  C4. When the repository has no user for \<open>userId\<close>, \<open>registerClient\<close> throws
  \<open>Error('User not found')\<close>, and the state after the call, the registry included, is the
  state before it.
\<close>

theorem register_unknown_user:
  "findOneBy userId = Inr None \<Longrightarrow>
   registerClient findOneBy client userId w = (Inl UserNotFound, w)"
  by (simp add: registerClient_def)

theorem register_unknown_user_witness:
  "directory ''u7'' = Inr None
   \<and> registerClient directory connB ''u7'' world_A = (Inl UserNotFound, world_A)"
  using register_unknown_user[of directory "''u7''" connB world_A]
  by (simp add: directory_def)

text \<open>
  C5. When the repository has a user for \<open>userId\<close> whose \<open>isActive\<close> is false,
  \<open>registerClient\<close> throws \<open>Error('User is not active')\<close>, and the state after the
  call, the registry included, is the state before it.
\<close>

theorem register_inactive_user:
  "findOneBy userId = Inr (Some u) \<Longrightarrow> \<not> isActive u \<Longrightarrow>
   registerClient findOneBy client userId w = (Inl UserInactive, w)"
  by (simp add: registerClient_def)

theorem register_inactive_user_witness:
  "directory_later ''u2'' = Inr (Some grace) \<and> \<not> isActive grace
   \<and> registerClient directory_later connB ''u2'' world_A = (Inl UserInactive, world_A)"
  using register_inactive_user[of directory_later "''u2''" grace connB world_A]
  by (simp add: directory_later_def grace_def)

section \<open>Sessions without a record\<close>

text \<open>
  C6. \<open>removeClient\<close> on a session id that has no record in the registry changes
  nothing; the operation has no failing branch at all.
\<close>

theorem removeClient_absent:
  "map_of (connectedClients w) clientId = None \<Longrightarrow> removeClient clientId w = w"
  by (simp add: removeClient_def map_of_eq_None_iff)

theorem removeClient_absent_witness:
  "map_of (connectedClients world_A) ''sessB'' = None \<and> removeClient ''sessB'' world_A = world_A"
  using removeClient_absent[of world_A "''sessB''"]
  by (simp add: world_A_def)

text \<open>
  C2. \<open>getUserFullName\<close> fails for every session id without a record: reading \<open>.user\<close>
  from the missing entry raises the runtime's \<open>TypeError\<close>, the failure the specification
  calls \<open>SessionNotFound\<close>. That covers an id that was never registered (the empty
  registry has no record at all) and an id that has just been removed.
\<close>

theorem getUserFullName_absent:
  "(map_of (connectedClients w) clientId = None \<longrightarrow>
      getUserFullName clientId w = Inl SessionNotFound)
   \<and> getUserFullName clientId init_world = Inl SessionNotFound
   \<and> getUserFullName clientId (removeClient clientId w) = Inl SessionNotFound"
  by (simp add: getUserFullName_def init_world_def removeClient_def delete_conv')

theorem getUserFullName_absent_witness:
  "map_of (connectedClients world_A) ''sessB'' = None
   \<and> getUserFullName ''sessB'' world_A = Inl SessionNotFound
   \<and> getUserFullName ''sessA'' world_A = Inr ''Ada Lovelace''
   \<and> getUserFullName ''sessA'' (removeClient ''sessA'' world_A) = Inl SessionNotFound"
  using getUserFullName_absent[of world_A "''sessB''"]
    getUserFullName_absent[of world_A "''sessA''"]
  by (simp add: eval_defs)

section \<open>Eviction\<close>

text \<open>
  C3. If the registry holds an entry of the resolved user, \<open>registerClient\<close> for a
  socket \<open>client\<close> succeeds and calls \<open>disconnect()\<close> exactly once: on the socket of the first
  entry of that user in the order of \<open>Object.keys\<close>, where the loop breaks. If the user has
  one entry only, it is that entry's socket. After the call \<open>getConnectedClients\<close>
  contains the id of \<open>client\<close>.
\<close>

theorem register_disconnects_first_match:
  assumes "findOneBy userId = Inr (Some u)" and "isActive u"
    and "map_of (connectedClients w) k = Some e" and "user_id (user e) = user_id u"
  shows "\<exists>ks1 k0 ks2 e0 w'.
           getConnectedClients w = ks1 @ k0 # ks2
         \<and> (\<forall>k'\<in>set ks1. \<not> same_user u (connectedClients w) k')
         \<and> map_of (connectedClients w) k0 = Some e0 \<and> user_id (user e0) = user_id u
         \<and> ((\<forall>k'. same_user u (connectedClients w) k' \<longrightarrow> k' = k) \<longrightarrow> e0 = e)
         \<and> registerClient findOneBy client userId w = (Inr (), w')
         \<and> disconnect_calls w' = disconnect_calls w @ [socket e0]
         \<and> socket_id client \<in> set (getConnectedClients w')"
proof -
  let ?cc = "connectedClients w"
  let ?new = "\<lparr>socket = client, user = u\<rparr>"
  from assms(3,4) have "same_user u ?cc k" by (simp add: same_user_def)
  from checkUserConnection_first_match[OF this] obtain ks1 k0 ks2 e0 where
    keys: "Object_keys ?cc = ks1 @ k0 # ks2"
    and miss: "\<forall>k'\<in>set ks1. \<not> same_user u ?cc k'"
    and e0: "map_of ?cc k0 = Some e0" "user_id (user e0) = user_id u"
    and chk: "checkUserConnection u w
             = (Inr (), w\<lparr>disconnect_calls := disconnect_calls w @ [socket e0]\<rparr>)"
    by blast
  let ?w' = "\<lparr>connectedClients = AList.update (socket_id client) ?new ?cc,
             disconnect_calls = disconnect_calls w @ [socket e0]\<rparr>"
  from assms(1,2) chk have reg: "registerClient findOneBy client userId w = (Inr (), ?w')"
    by (simp add: registerClient_def)
  have listed: "socket_id client \<in> set (getConnectedClients ?w')"
    by (simp add: getConnectedClients_def set_Object_keys dom_update)
  have only: "(\<forall>k'. same_user u ?cc k' \<longrightarrow> k' = k) \<longrightarrow> e0 = e"
  proof
    assume "\<forall>k'. same_user u ?cc k' \<longrightarrow> k' = k"
    moreover from e0 have "same_user u ?cc k0" by (simp add: same_user_def)
    ultimately have "k0 = k" by blast
    with e0(1) assms(3) show "e0 = e" by simp
  qed
  from keys miss e0 only reg listed show ?thesis
    unfolding getConnectedClients_def by (intro exI[of _ ks1] exI[of _ k0] exI[of _ ks2] exI[of _ e0] exI[of _ ?w']) simp
qed

theorem register_disconnects_first_match_witness:
  "directory ''u1'' = Inr (Some ada) \<and> isActive ada
   \<and> map_of (connectedClients world_A) ''sessA'' = Some entryA
   \<and> user_id (user entryA) = user_id ada
   \<and> (\<exists>w'. registerClient directory connB ''u1'' world_A = (Inr (), w')
         \<and> disconnect_calls w' = [connA]
         \<and> socket_id connB \<in> set (getConnectedClients w'))"
proof -
  have h1: "directory ''u1'' = Inr (Some ada)" and h2: "isActive ada"
    and h3: "map_of (connectedClients world_A) ''sessA'' = Some entryA"
    and h4: "user_id (user entryA) = user_id ada"
    by (simp_all add: directory_def ada_def world_A_def entryA_def)
  have only: "\<forall>k'. same_user ada (connectedClients world_A) k' \<longrightarrow> k' = ''sessA''"
    by (simp add: same_user_def world_A_def)
  from register_disconnects_first_match[of directory "''u1''" ada world_A "''sessA''" entryA connB,
      OF h1 h2 h3 h4] only
  obtain w' where "registerClient directory connB ''u1'' world_A = (Inr (), w')"
    "disconnect_calls w' = disconnect_calls world_A @ [socket entryA]"
    "socket_id connB \<in> set (getConnectedClients w')"
    by blast
  then have "\<exists>w'. registerClient directory connB ''u1'' world_A = (Inr (), w')
         \<and> disconnect_calls w' = [connA]
         \<and> socket_id connB \<in> set (getConnectedClients w')"
    by (simp add: world_A_def entryA_def)
  with h1 h2 h3 h4 show ?thesis by blast
qed

text \<open>
  C9. A registration that meets an entry of the same user removes no key: the key of that
  entry is still in the registry when \<open>registerClient\<close> returns, every key other than the
  id of the new socket holds the entry it held before (so the entry of the evicted session, too,
  unless the new socket presents the very same id), and it is \<open>removeClient\<close> for that
  key that makes the record disappear.
\<close>

theorem register_keeps_evicted_entry:
  assumes "findOneBy userId = Inr (Some u)" and "isActive u"
    and "map_of (connectedClients w) k = Some e" and "user_id (user e) = user_id u"
  shows "\<exists>w'. registerClient findOneBy client userId w = (Inr (), w')
         \<and> k \<in> set (getConnectedClients w')
         \<and> (k \<noteq> socket_id client \<longrightarrow> map_of (connectedClients w') k = Some e)
         \<and> (\<forall>k'. k' \<noteq> socket_id client \<longrightarrow>
               map_of (connectedClients w') k' = map_of (connectedClients w) k')
         \<and> map_of (connectedClients (removeClient k w')) k = None"
proof -
  from registerClient_success[of findOneBy userId u client w] assms(1,2) obtain ds where
    reg: "registerClient findOneBy client userId w
           = (Inr (),
              \<lparr>connectedClients =
                 AList.update (socket_id client) \<lparr>socket = client, user = u\<rparr> (connectedClients w),
               disconnect_calls = disconnect_calls w @ ds\<rparr>)"
    by blast
  from assms(3) have "k \<in> fst ` set (connectedClients w)" by (rule entry_has_key)
  with reg assms(3) show ?thesis
    by (simp add: getConnectedClients_def set_Object_keys dom_update update_conv'
        removeClient_def delete_conv')
qed

theorem register_keeps_evicted_entry_witness:
  "directory ''u1'' = Inr (Some ada) \<and> isActive ada
   \<and> map_of (connectedClients world_A) ''sessA'' = Some entryA
   \<and> user_id (user entryA) = user_id ada
   \<and> ''sessA'' \<noteq> socket_id connB
   \<and> (\<exists>w'. registerClient directory connB ''u1'' world_A = (Inr (), w')
         \<and> map_of (connectedClients w') ''sessA'' = Some entryA
         \<and> map_of (connectedClients (removeClient ''sessA'' w')) ''sessA'' = None)"
proof -
  have h1: "directory ''u1'' = Inr (Some ada)" and h2: "isActive ada"
    and h3: "map_of (connectedClients world_A) ''sessA'' = Some entryA"
    and h4: "user_id (user entryA) = user_id ada"
    and h5: "''sessA'' \<noteq> socket_id connB"
    by (simp_all add: directory_def ada_def world_A_def entryA_def connB_def)
  from register_keeps_evicted_entry[of directory "''u1''" ada world_A "''sessA''" entryA connB,
      OF h1 h2 h3 h4] h5
  have "\<exists>w'. registerClient directory connB ''u1'' world_A = (Inr (), w')
         \<and> map_of (connectedClients w') ''sessA'' = Some entryA
         \<and> map_of (connectedClients (removeClient ''sessA'' w')) ''sessA'' = None"
    by blast
  with h1 h2 h3 h4 h5 show ?thesis by blast
qed

text \<open>
  C10. When the id of the connecting socket already keys an entry, \<open>registerClient\<close>
  succeeds and replaces that entry by the new record in place: the keys of the registry and
  the entries under the other keys are as before. Whether the call succeeds never depends on
  the key being present: the outcome is the same on the registry without it.
\<close>

theorem register_overwrites_same_session_id:
  assumes "map_of (connectedClients w) (socket_id client) = Some old"
    and "findOneBy userId = Inr (Some u)" and "isActive u"
  shows "\<exists>w'. registerClient findOneBy client userId w = (Inr (), w')
         \<and> map_of (connectedClients w') (socket_id client) = Some \<lparr>socket = client, user = u\<rparr>
         \<and> map fst (connectedClients w') = map fst (connectedClients w)
         \<and> (\<forall>k. k \<noteq> socket_id client \<longrightarrow>
               map_of (connectedClients w') k = map_of (connectedClients w) k)
         \<and> fst (registerClient findOneBy client userId (removeClient (socket_id client) w))
             = Inr ()"
proof -
  from registerClient_success[of findOneBy userId u client w] assms(2,3) obtain ds where
    reg: "registerClient findOneBy client userId w
           = (Inr (),
              \<lparr>connectedClients =
                 AList.update (socket_id client) \<lparr>socket = client, user = u\<rparr> (connectedClients w),
               disconnect_calls = disconnect_calls w @ ds\<rparr>)"
    by blast
  from assms(1) have "socket_id client \<in> fst ` set (connectedClients w)" by (rule entry_has_key)
  moreover from assms(2,3)
  have "fst (registerClient findOneBy client userId (removeClient (socket_id client) w)) = Inr ()"
    by (simp add: registerClient_outcome)
  ultimately show ?thesis using reg
    by (simp add: update_conv' update_keys)
qed

theorem register_overwrites_same_session_id_witness:
  "map_of (connectedClients world_A) (socket_id connA2) = Some entryA
   \<and> directory_later ''u1'' = Inr (Some (ada\<lparr>fullName := ''Ada King''\<rparr>))
   \<and> isActive (ada\<lparr>fullName := ''Ada King''\<rparr>)
   \<and> (\<exists>w'. registerClient directory_later connA2 ''u1'' world_A = (Inr (), w')
         \<and> map_of (connectedClients w') ''sessA''
             = Some \<lparr>socket = connA2, user = ada\<lparr>fullName := ''Ada King''\<rparr>\<rparr>
         \<and> map fst (connectedClients w') = [''sessA''])"
proof -
  have h1: "map_of (connectedClients world_A) (socket_id connA2) = Some entryA"
    and h2: "directory_later ''u1'' = Inr (Some (ada\<lparr>fullName := ''Ada King''\<rparr>))"
    and h3: "isActive (ada\<lparr>fullName := ''Ada King''\<rparr>)"
    by (simp_all add: directory_later_def ada_def world_A_def connA2_def)
  from register_overwrites_same_session_id
    [of world_A connA2 entryA directory_later "''u1''" "ada\<lparr>fullName := ''Ada King''\<rparr>",
      OF h1 h2 h3]
  obtain w' where "registerClient directory_later connA2 ''u1'' world_A = (Inr (), w')"
    "map_of (connectedClients w') (socket_id connA2)
       = Some \<lparr>socket = connA2, user = ada\<lparr>fullName := ''Ada King''\<rparr>\<rparr>"
    "map fst (connectedClients w') = map fst (connectedClients world_A)"
    by blast
  then have "\<exists>w'. registerClient directory_later connA2 ''u1'' world_A = (Inr (), w')
         \<and> map_of (connectedClients w') ''sessA''
             = Some \<lparr>socket = connA2, user = ada\<lparr>fullName := ''Ada King''\<rparr>\<rparr>
         \<and> map fst (connectedClients w') = [''sessA'']"
    by (simp add: world_A_def connA2_def)
  with h1 h2 h3 show ?thesis by blast
qed

section \<open>The stored user is a snapshot\<close>

lemma call_step_other_keys:
  "\<not> touches k c \<Longrightarrow>
   map_of (connectedClients (call_step c w)) k = map_of (connectedClients w) k"
proof (cases c)
  case (Register findOneBy client userId)
  assume "\<not> touches k c"
  with Register show ?thesis by (auto simp: registerClient_other_keys)
next
  case (Unregister clientId)
  assume "\<not> touches k c"
  with Unregister show ?thesis by (auto simp: removeClient_def delete_conv')
qed

lemma run_other_keys:
  "\<forall>c\<in>set calls. \<not> touches k c \<Longrightarrow>
   map_of (connectedClients (run calls w)) k = map_of (connectedClients w) k"
  unfolding run_def
  by (induction calls arbitrary: w) (simp_all add: call_step_other_keys)

text \<open>
  C7. After a successful \<open>registerClient\<close>, \<open>getUserFullName\<close> on the id of the
  registered socket returns the \<open>fullName\<close> of the record that the repository returned
  for that call. It still does after any later calls that neither remove nor re-register
  that session id, whatever the repository answers in them: \<open>getUserFullName\<close> reads the
  stored record and never the repository.
\<close>

theorem getUserFullName_is_snapshot:
  assumes "findOneBy userId = Inr (Some u)" and "isActive u"
    and "\<forall>c\<in>set later. \<not> touches (socket_id client) c"
  shows "\<exists>w'. registerClient findOneBy client userId w = (Inr (), w')
         \<and> getUserFullName (socket_id client) w' = Inr (fullName u)
         \<and> getUserFullName (socket_id client) (run later w') = Inr (fullName u)"
proof -
  from registerClient_success[of findOneBy userId u client w] assms(1,2) obtain w' where
    reg: "registerClient findOneBy client userId w = (Inr (), w')"
    and cc: "connectedClients w'
      = AList.update (socket_id client) \<lparr>socket = client, user = u\<rparr> (connectedClients w)"
    by auto
  from cc have now: "map_of (connectedClients w') (socket_id client)
      = Some \<lparr>socket = client, user = u\<rparr>"
    by (simp add: update_conv')
  with run_other_keys[OF assms(3), of w']
  have "map_of (connectedClients (run later w')) (socket_id client)
      = Some \<lparr>socket = client, user = u\<rparr>"
    by simp
  with reg now show ?thesis by (simp add: getUserFullName_def)
qed

theorem getUserFullName_is_snapshot_witness:
  "directory ''u1'' = Inr (Some ada) \<and> isActive ada
   \<and> \<not> touches (socket_id connA) (Register directory_later connB ''u1'')
   \<and> \<not> touches (socket_id connA) (Unregister ''sessC'')
   \<and> directory_later ''u1'' = Inr (Some (ada\<lparr>fullName := ''Ada King''\<rparr>))
   \<and> (\<exists>w'. registerClient directory connA ''u1'' init_world = (Inr (), w')
        \<and> getUserFullName ''sessA''
             (run [Register directory_later connB ''u1'', Unregister ''sessC''] w')
            = Inr ''Ada Lovelace'')"
proof -
  have h1: "directory ''u1'' = Inr (Some ada)" and h2: "isActive ada"
    and h3: "\<not> touches (socket_id connA) (Register directory_later connB ''u1'')"
    and h3': "\<not> touches (socket_id connA) (Unregister ''sessC'')"
    and h4: "directory_later ''u1'' = Inr (Some (ada\<lparr>fullName := ''Ada King''\<rparr>))"
    by (simp_all add: directory_def directory_later_def ada_def connA_def connB_def)
  from h3 h3' have later: "\<forall>c\<in>set [Register directory_later connB ''u1'', Unregister ''sessC''].
         \<not> touches (socket_id connA) c"
    by simp
  from getUserFullName_is_snapshot[of directory "''u1''" ada _ connA init_world, OF h1 h2 later]
  have "\<exists>w'. registerClient directory connA ''u1'' init_world = (Inr (), w')
        \<and> getUserFullName ''sessA''
             (run [Register directory_later connB ''u1'', Unregister ''sessC''] w')
            = Inr ''Ada Lovelace''"
    by (auto simp: connA_def ada_def)
  with h1 h2 h3 h3' h4 show ?thesis by blast
qed

section \<open>The scenario of the specification\<close>

lemma Object_keys_single: "Object_keys [(k, v)] = [k]"
  by (simp add: Object_keys_def)

text \<open>
  C8. On the empty registry, with a directory that holds the active user \<open>u1\<close> named
  Ada Lovelace, and two sockets with different ids: registering \<open>a\<close> for \<open>u1\<close> succeeds
  and \<open>getUserFullName\<close> on its id returns the name; registering \<open>b\<close> for \<open>u1\<close>
  succeeds and the one call of \<open>disconnect()\<close> so far is on \<open>a\<close>; after
  \<open>removeClient\<close> on the id of \<open>a\<close>, \<open>getConnectedClients\<close> returns the id of \<open>b\<close> and
  nothing else.
\<close>

theorem scenario_two_connections:
  assumes "socket_id a \<noteq> socket_id b"
  shows "\<exists>w1 w2.
           registerClient directory a ''u1'' init_world = (Inr (), w1)
         \<and> getUserFullName (socket_id a) w1 = Inr ''Ada Lovelace''
         \<and> registerClient directory b ''u1'' w1 = (Inr (), w2)
         \<and> disconnect_calls w2 = [a]
         \<and> getConnectedClients (removeClient (socket_id a) w2) = [socket_id b]"
proof -
  let ?ea = "\<lparr>socket = a, user = ada\<rparr>" and ?eb = "\<lparr>socket = b, user = ada\<rparr>"
  let ?w1 = "\<lparr>connectedClients = [(socket_id a, ?ea)], disconnect_calls = []\<rparr>"
  let ?w2 = "\<lparr>connectedClients = [(socket_id a, ?ea), (socket_id b, ?eb)],
             disconnect_calls = [a]\<rparr>"
  have r1: "registerClient directory a ''u1'' init_world = (Inr (), ?w1)"
    by (simp add: registerClient_def directory_def ada_def init_world_def
        checkUserConnection_def Object_keys_def)
  have n1: "getUserFullName (socket_id a) ?w1 = Inr ''Ada Lovelace''"
    by (simp add: getUserFullName_def ada_def)
  have "checkUserConnection ada ?w1 = (Inr (), ?w1\<lparr>disconnect_calls := [a]\<rparr>)"
    by (simp add: checkUserConnection_def Object_keys_single)
  with assms have r2: "registerClient directory b ''u1'' ?w1 = (Inr (), ?w2)"
    by (simp add: registerClient_def directory_def ada_def)
  from assms have l: "getConnectedClients (removeClient (socket_id a) ?w2) = [socket_id b]"
    by (simp add: getConnectedClients_def removeClient_def Object_keys_single)
  from r1 n1 r2 l show ?thesis by (intro exI[of _ ?w1] exI[of _ ?w2]) simp
qed

theorem scenario_two_connections_witness:
  "socket_id connA \<noteq> socket_id connB
   \<and> (\<exists>w1 w2.
           registerClient directory connA ''u1'' init_world = (Inr (), w1)
         \<and> getUserFullName ''sessA'' w1 = Inr ''Ada Lovelace''
         \<and> registerClient directory connB ''u1'' w1 = (Inr (), w2)
         \<and> disconnect_calls w2 = [connA]
         \<and> getConnectedClients (removeClient ''sessA'' w2) = [''sessB''])"
proof -
  have h: "socket_id connA \<noteq> socket_id connB"
    by (simp add: connA_def connB_def)
  have "socket_id connA = ''sessA''" "socket_id connB = ''sessB''"
    by (simp_all add: connA_def connB_def)
  with scenario_two_connections[OF h] h show ?thesis by simp
qed

section \<open>One session per user\<close>












end
